theory Spec2Isabelle
  imports Complex_Main "HOL-Library.AList"
begin

section \<open>Exceptions, observable actions and the execution monad\<close>

text \<open>
  The development embeds \<^verbatim>\<open>main\<close> of \<^verbatim>\<open>experiments/train_bnn.py\<close>.
  Every exception the script can raise is a value of \<open>error\<close>. An \<open>assert\<close> carries the
  text of the asserted expression, so that the five checks at the top of \<^verbatim>\<open>main\<close> and the
  divisibility check of line 192 stay distinguishable. \<open>RunnerError\<close> stands for whatever
  the sampling runner's \<^verbatim>\<open>run()\<close> raises.
\<close>

datatype error =
    AssertionError string
  | ValueError string
  | RuntimeError string
  | TypeError string
  | KeyError string
  | ZeroDivisionError
  | UnboundLocalError string
  | RunnerError

datatype sink = Metrics | Samples

type_synonym shape = "nat list"

text \<open>
  A tensor is its shape (what \<^verbatim>\<open>.size()\<close> returns) and its contents. A Python \<open>dict\<close>
  is an association list in insertion order; a well-formed one has distinct keys.
\<close>

datatype tensor = Tensor (tensor_size: shape) (payload: "int list")

type_synonym state_dict = "(string \<times> tensor) list"

datatype warning =
    KeyNotInModel string
  | SizeMismatch string shape shape
  | MissingKeys "string set"

datatype runner_class =
    SGLDRunner | VerletSGLDRunner | HMCRunner | VerletSGLDRunnerReject | HMCRunnerReject

datatype split = Train | Test

text \<open>
  The keyword arguments of the runner constructor (lines 201 to 205) that \<^verbatim>\<open>main\<close>
  computes or that concern the sinks. The remaining ones (\<^verbatim>\<open>learning_rate\<close>,
  \<^verbatim>\<open>sampling_decay\<close>, \<^verbatim>\<open>temperature\<close>, \<^verbatim>\<open>momentum\<close>,
  \<^verbatim>\<open>precond_update\<close>, \<^verbatim>\<open>reject_samples\<close>) are handed over unchanged.
\<close>

record runner_args =
  epochs_per_cycle :: int
  warmup_epochs :: int
  sample_epochs :: int
  runner_skip :: int
  runner_metrics_skip :: int
  runner_cycles :: int
  metrics_saver :: "sink option"
  model_saver :: "sink option"

text \<open>
  The calls \<^verbatim>\<open>main\<close> makes to its collaborators, in the order it makes them.
  \<open>SinkOpened\<close> and \<open>SinkClosed\<close> are the \<^verbatim>\<open>__enter__\<close> and \<^verbatim>\<open>__exit__\<close> of the
  context managers of the \<^verbatim>\<open>with\<close> statement; \<open>SinkWrite\<close> is a record written by the
  runner while it runs; \<open>RunRaised\<close> marks the point where \<^verbatim>\<open>run()\<close> raised.
\<close>

datatype event =
    GetData
  | GetModel
  | Initialize string
  | LoadSamples string
  | LogWarning warning
  | LoadStateDict state_dict
  | SinkOpened sink
  | SinkClosed sink
  | SinkWrite sink
  | GetPotential
  | HMCKernel real nat
  | MCMCConstructed int int
  | DataLoader split int bool nat
  | RunnerConstructed runner_class runner_args
  | RunStarted
  | RunRaised
  | GetSamples
  | ModelEval
  | EvaluateModel int

text \<open>
  A statement either returns normally or raises; in both cases it has performed a
  sequence of actions. Sequencing stops at the first exception and keeps the actions
  performed so far.
\<close>

type_synonym 'a run = "(error + 'a) \<times> event list"

definition ret :: "'a \<Rightarrow> 'a run" where
  "ret x = (Inr x, [])"

definition raise :: "error \<Rightarrow> 'a run" where
  "raise e = (Inl e, [])"

definition emit :: "event \<Rightarrow> unit run" where
  "emit ev = (Inr (), [ev])"

definition bind_run :: "'a run \<Rightarrow> ('a \<Rightarrow> 'b run) \<Rightarrow> 'b run" where
  "bind_run m f =
     (case m of
        (Inl e, tr) \<Rightarrow> (Inl e, tr)
      | (Inr x, tr) \<Rightarrow> (case f x of (r, tr') \<Rightarrow> (r, tr @ tr')))"

definition seq_run :: "unit run \<Rightarrow> 'b run \<Rightarrow> 'b run" where
  "seq_run m k = bind_run m (\<lambda>_. k)"

definition py_assert :: "bool \<Rightarrow> string \<Rightarrow> unit run" where
  "py_assert b src = (if b then ret () else raise (AssertionError src))"

section \<open>Configuration and environment\<close>

text \<open>
  The arguments of \<^verbatim>\<open>main\<close> that its control flow reads. Python integers are
  unbounded, hence \<open>int\<close>; \<^verbatim>\<open>load_samples\<close> and \<^verbatim>\<open>batch_size\<close> may be
  \<^verbatim>\<open>None\<close>.
\<close>

record config =
  inference :: string
  width :: int
  n_samples :: int
  warmup :: int
  burnin :: int
  skip :: int
  metrics_skip :: int
  cycles :: int
  temperature :: real
  init_method :: string
  load_samples :: "string option"
  batch_size :: "int option"
  save_samples :: bool

text \<open>
  Modelled from the spec: \<^verbatim>\<open>exp_utils.load_samples\<close> is not among the sources. Per
  section 3 its result is a ParameterStore, a mapping from parameter names to tensors;
  it is taken to be a built-in \<^verbatim>\<open>dict\<close>, the field \<open>checkpoint\<close> below.

  What the collaborators answer: the sizes of the two data splits, whether the training
  split is a \<^verbatim>\<open>TensorDataset\<close>, the \<^verbatim>\<open>state_dict()\<close> of the freshly built model,
  the dictionary \<^verbatim>\<open>exp_utils.load_samples\<close> returns, the records the runner tries to
  write during \<^verbatim>\<open>run()\<close>, and whether \<^verbatim>\<open>run()\<close> raises after them.
\<close>

record env =
  train_len :: nat
  test_len :: nat
  tensor_dataset :: bool
  model_state :: state_dict
  checkpoint :: state_dict
  run_writes :: "sink list"
  run_raises :: bool

section \<open>Validation (lines 117 to 121)\<close>

definition inference_modes :: "string list" where
  "inference_modes =
     [''SGLD'', ''HMC'', ''VerletSGLD'', ''OurHMC'', ''HMCReject'', ''VerletSGLDReject'']"

definition check_config :: "config \<Rightarrow> unit run" where
  "check_config c =
     seq_run (py_assert (inference c \<in> set inference_modes) ''inference in [...]'')
    (seq_run (py_assert (0 < width c) ''width > 0'')
    (seq_run (py_assert (0 < n_samples c) ''n_samples > 0'')
    (seq_run (py_assert (0 < cycles c) ''cycles > 0'')
             (py_assert (0 \<le> temperature c) ''temperature >= 0''))))"

section \<open>Checkpoint reconciliation (lines 145 to 158)\<close>

text \<open>
  The loop \<^verbatim>\<open>for k in state_dict.keys()\<close> iterates over the dictionary it mutates.
  A dictionary iterator remembers the number of entries at its creation (\<open>di_used\<close>) and
  compares it with the current number at every step, before it looks for the next
  entry; when they differ it raises
  \<^verbatim>\<open>RuntimeError: dictionary changed size during iteration\<close>. \<^verbatim>\<open>del state_dict[k]\<close>
  removes an entry; \<^verbatim>\<open>state_dict[k] = model_sd[k]\<close> replaces the value of an existing
  key in place. Neither moves an entry not yet visited, so the keys still to come are a
  suffix of the original key order.
\<close>

fun iter_keys :: "nat \<Rightarrow> string list \<Rightarrow> state_dict \<Rightarrow> state_dict \<Rightarrow> state_dict run" where
  "iter_keys di_used [] model_sd sd =
     (if di_used \<noteq> length sd
      then raise (RuntimeError ''dictionary changed size during iteration'')
      else ret sd)"
| "iter_keys di_used (k # ks) model_sd sd =
     (if di_used \<noteq> length sd
      then raise (RuntimeError ''dictionary changed size during iteration'')
      else (case map_of model_sd k of
              None \<Rightarrow>
                seq_run (emit (LogWarning (KeyNotInModel k)))
                        (iter_keys di_used ks model_sd (AList.delete k sd))
            | Some m \<Rightarrow>
                (case map_of sd k of
                   None \<Rightarrow> raise (KeyError k)
                 | Some l \<Rightarrow>
                     if tensor_size m \<noteq> tensor_size l
                     then seq_run
                            (emit (LogWarning (SizeMismatch k (tensor_size m) (tensor_size l))))
                            (iter_keys di_used ks model_sd (AList.update k m sd))
                     else iter_keys di_used ks model_sd sd)))"

text \<open>\<^verbatim>\<open>model_sd.update(state_dict)\<close>: assign every entry of the argument, in its order.\<close>

definition dict_update :: "state_dict \<Rightarrow> state_dict \<Rightarrow> state_dict" where
  "dict_update d other = foldl (\<lambda>acc (k, v). AList.update k v acc) d other"

definition reconcile :: "state_dict \<Rightarrow> state_dict \<Rightarrow> state_dict run" where
  "reconcile model_sd sd =
     bind_run (iter_keys (length sd) (map fst sd) model_sd sd) (\<lambda>sd'.
       seq_run (emit (LogWarning (MissingKeys (set (map fst model_sd) - set (map fst sd')))))
               (ret (dict_update model_sd sd')))"

section \<open>Model initialisation or resumption (lines 133 to 160)\<close>

definition prepare_model :: "config \<Rightarrow> env \<Rightarrow> unit run" where
  "prepare_model c ev =
     (case load_samples c of
        None \<Rightarrow>
          if init_method c = ''he'' then emit (Initialize ''he'')
          else if init_method c = ''he_uniform'' then emit (Initialize ''he_uniform'')
          else if init_method c = ''he_zerobias'' then emit (Initialize ''he_zerobias'')
          else if init_method c = ''prior'' then ret ()
          else raise (ValueError (''unknown init_method='' @ init_method c))
      | Some path \<Rightarrow>
          seq_run (emit (LoadSamples path))
            (bind_run (reconcile (model_state ev) (checkpoint ev)) (\<lambda>model_sd.
               emit (LoadStateDict model_sd))))"

section \<open>Schedule (lines 192 to 194)\<close>

text \<open>
  Python's \<^verbatim>\<open>%\<close> and \<^verbatim>\<open>//\<close> on integers round towards minus infinity, as \<open>mod\<close> and
  \<open>div\<close> on \<open>int\<close> do; a zero divisor raises.
\<close>

definition schedule :: "config \<Rightarrow> error + (int \<times> int)" where
  "schedule c =
     (if cycles c = 0 then Inl ZeroDivisionError
      else if (n_samples c * skip c) mod cycles c \<noteq> 0
      then Inl (AssertionError ''(n_samples * skip) % cycles == 0'')
      else (let sample_epochs = n_samples c * skip c div cycles c;
                epochs_per_cycle = warmup c + burnin c + sample_epochs
            in Inr (sample_epochs, epochs_per_cycle)))"

section \<open>The sampling block (lines 162 to 207)\<close>

text \<open>
  \<^verbatim>\<open>model_saver_fn\<close> is the sample sink when \<^verbatim>\<open>save_samples\<close> holds and otherwise
  a context manager that yields \<^verbatim>\<open>None\<close> and holds no resource.
\<close>

definition model_saver_fn :: "config \<Rightarrow> sink option" where
  "model_saver_fn c = (if save_samples c then Some Samples else None)"

text \<open>
  One item of a \<^verbatim>\<open>with\<close> statement: enter the context manager, run the body with what
  it yields, and leave it whether the body returned or raised; the outcome of the body
  is the outcome of the statement.
\<close>

definition with_ctx :: "sink option \<Rightarrow> (sink option \<Rightarrow> 'a run) \<Rightarrow> 'a run" where
  "with_ctx cm body =
     (case cm of
        None \<Rightarrow> body None
      | Some s \<Rightarrow> (case body (Some s) of (r, tr) \<Rightarrow> (r, [SinkOpened s] @ tr @ [SinkClosed s])))"

definition select_runner :: "string \<Rightarrow> runner_class option" where
  "select_runner mode =
     (if mode = ''SGLD'' then Some SGLDRunner
      else if mode = ''VerletSGLD'' then Some VerletSGLDRunner
      else if mode = ''OurHMC'' then Some HMCRunner
      else if mode = ''VerletSGLDReject'' then Some VerletSGLDRunnerReject
      else if mode = ''HMCReject'' then Some HMCRunnerReject
      else None)"

text \<open>
  \<^verbatim>\<open>t.utils.data.DataLoader(dataset, batch_size=..., ...)\<close> (lines 199, 200 and 212):
  the constructor rejects a batch size that is not positive with a \<^verbatim>\<open>ValueError\<close>.
\<close>

definition data_loader :: "split \<Rightarrow> int \<Rightarrow> bool \<Rightarrow> nat \<Rightarrow> unit run" where
  "data_loader sp bs shuffle num_workers =
     (if bs \<le> 0 then raise (ValueError ''batch_size should be a positive integer value'')
      else emit (DataLoader sp bs shuffle num_workers))"

text \<open>
  Lines 175 to 179. The library kernel and \<^verbatim>\<open>MCMC\<close> receive neither sink. The step
  size is the literal \<^verbatim>\<open>1e-3\<close>.
\<close>

definition hmc_branch :: "config \<Rightarrow> env \<Rightarrow> (int option \<times> sink list) run" where
  "hmc_branch c ev =
     seq_run (emit GetPotential)
    (seq_run (emit (HMCKernel (1 / 1000) 32))
    (seq_run (emit (MCMCConstructed (n_samples c) (warmup c)))
             (ret (batch_size c, []))))"

text \<open>
  Lines 181 to 205. The result is the local \<^verbatim>\<open>batch_size\<close> after the branch and the
  sinks the constructed runner holds.
\<close>

definition sgmcmc_branch ::
    "config \<Rightarrow> env \<Rightarrow> sink option \<Rightarrow> sink option \<Rightarrow> (int option \<times> sink list) run" where
  "sgmcmc_branch c ev ms sv =
     bind_run (schedule c, []) (\<lambda>(se, epc).
       let bs = (case batch_size c of None \<Rightarrow> int (train_len ev) | Some b \<Rightarrow> b);
           num_workers = (if tensor_dataset ev then 0 else 2)
       in seq_run (data_loader Train bs True num_workers)
         (seq_run (data_loader Test bs False num_workers)
            (case select_runner (inference c) of
               None \<Rightarrow> raise (UnboundLocalError ''runner_class'')
             | Some cls \<Rightarrow>
                 seq_run
                   (emit (RunnerConstructed cls
                      \<lparr>epochs_per_cycle = epc, warmup_epochs = warmup c, sample_epochs = se,
                       runner_skip = skip c, runner_metrics_skip = metrics_skip c,
                       runner_cycles = cycles c, metrics_saver = ms, model_saver = sv\<rparr>))
                   (ret (Some bs, List.filter (\<lambda>s. Some s = ms \<or> Some s = sv) [Metrics, Samples])))))"

text \<open>
  Line 207, \<^verbatim>\<open>mcmc.run(progressbar=progressbar)\<close>: the runner writes to the sinks it
  was given, then returns or raises.
\<close>

definition mcmc_run :: "env \<Rightarrow> sink list \<Rightarrow> unit run" where
  "mcmc_run ev sinks =
     ((if run_raises ev then Inl RunnerError else Inr ()),
      RunStarted # map SinkWrite (List.filter (\<lambda>s. s \<in> set sinks) (run_writes ev))
        @ (if run_raises ev then [RunRaised] else []))"

definition sampling :: "config \<Rightarrow> env \<Rightarrow> sink option \<Rightarrow> sink option \<Rightarrow> int option run" where
  "sampling c ev ms sv =
     bind_run (if inference c = ''HMC'' then hmc_branch c ev else sgmcmc_branch c ev ms sv)
       (\<lambda>(bs, sinks). seq_run (mcmc_run ev sinks) (ret bs))"

definition sampling_block :: "config \<Rightarrow> env \<Rightarrow> int option run" where
  "sampling_block c ev =
     with_ctx (Some Metrics) (\<lambda>ms. with_ctx (model_saver_fn c) (\<lambda>sv. sampling c ev ms sv))"

section \<open>Evaluation (lines 208 to 214) and the whole of main\<close>

text \<open>\<^verbatim>\<open>min(batch_size, len(data.norm.test))\<close>: comparing \<^verbatim>\<open>None\<close> with an integer raises.\<close>

definition py_min :: "int option \<Rightarrow> int \<Rightarrow> int run" where
  "py_min a b =
     (case a of
        None \<Rightarrow> raise (TypeError ''< not supported between instances of int and NoneType'')
      | Some x \<Rightarrow> ret (min x b))"

definition evaluation :: "env \<Rightarrow> int option \<Rightarrow> unit run" where
  "evaluation ev bs =
     seq_run (emit GetSamples)
    (seq_run (emit ModelEval)
    (bind_run (py_min bs (int (test_len ev))) (\<lambda>b.
       seq_run (data_loader Test b False 0) (emit (EvaluateModel b)))))"

text \<open>
  Lines 117 to 160. \<^verbatim>\<open>get_data()\<close> is called without arguments: the data identifier
  and what becomes of it (lines 87 to 101) are no argument of \<^verbatim>\<open>main\<close>, and the call
  is one action that returns the data set; for a synthetic identifier this presupposes the
  form \<^verbatim>\<open>synthetic.<data>.<prior>\<close> that line 90 unpacks. \<^verbatim>\<open>get_model\<close> likewise
  returns the model.
\<close>

definition prologue :: "config \<Rightarrow> env \<Rightarrow> unit run" where
  "prologue c ev =
     seq_run (check_config c)
    (seq_run (emit GetData)
    (seq_run (emit GetModel)
             (prepare_model c ev)))"

definition main :: "config \<Rightarrow> env \<Rightarrow> unit run" where
  "main c ev =
     seq_run (prologue c ev)
       (bind_run (sampling_block c ev) (\<lambda>bs. evaluation ev bs))"

section \<open>Concrete runs\<close>

text \<open>The defaults of \<^verbatim>\<open>config()\<close> (lines 40 to 76) and a small environment.\<close>

definition default_config :: config where
  "default_config =
     \<lparr>inference = ''SGLD'', width = 50, n_samples = 1000, warmup = 2000, burnin = 2000,
      skip = 5, metrics_skip = 10, cycles = 5, temperature = 1, init_method = ''he'',
      load_samples = None, batch_size = None, save_samples = True\<rparr>"

definition example_env :: env where
  "example_env =
     \<lparr>train_len = 2000, test_len = 500, tensor_dataset = True,
      model_state = [(''w'', Tensor [2] [0, 0]), (''b'', Tensor [1] [0])],
      checkpoint = [(''w'', Tensor [3] [1, 2, 3])],
      run_writes = [Metrics, Samples, Metrics], run_raises = False\<rparr>"

definition scenario_A :: config where
  "scenario_A = default_config\<lparr>n_samples := 100, skip := 5, cycles := 5\<rparr>"

definition scenario_B :: config where
  "scenario_B = default_config\<lparr>n_samples := 100, skip := 5, cycles := 3\<rparr>"

text \<open>Classification of actions, used to state what a run has and has not done.\<close>

fun sink_opened :: "event \<Rightarrow> bool" where
  "sink_opened (SinkOpened s) = True"
| "sink_opened e = False"

fun sampling_work :: "event \<Rightarrow> bool" where
  "sampling_work (HMCKernel st n) = True"
| "sampling_work (MCMCConstructed n w) = True"
| "sampling_work (RunnerConstructed cls args) = True"
| "sampling_work RunStarted = True"
| "sampling_work (SinkWrite s) = True"
| "sampling_work e = False"

fun is_kernel :: "event \<Rightarrow> bool" where
  "is_kernel (HMCKernel st n) = True"
| "is_kernel e = False"

text \<open>
  The configuration errors: the five assertions of lines 117 to 121, the assertion of line
  192 and the \<^verbatim>\<open>ValueError\<close> of line 143, whose message starts with
  \<^verbatim>\<open>unknown init_method=\<close>. No other exception is one, whatever its class.
\<close>

definition config_assertions :: "string list" where
  "config_assertions =
     [''inference in [...]'', ''width > 0'', ''n_samples > 0'', ''cycles > 0'',
      ''temperature >= 0'', ''(n_samples * skip) % cycles == 0'']"

fun starts_with :: "string \<Rightarrow> string \<Rightarrow> bool" where
  "starts_with [] s = True"
| "starts_with (p # ps) [] = False"
| "starts_with (p # ps) (c # cs) = (p = c \<and> starts_with ps cs)"

fun is_ConfigurationError :: "error \<Rightarrow> bool" where
  "is_ConfigurationError (AssertionError s) = (s \<in> set config_assertions)"
| "is_ConfigurationError (ValueError s) = starts_with ''unknown init_method='' s"
| "is_ConfigurationError e = False"

definition divisibility_violation :: error where
  "divisibility_violation = AssertionError ''(n_samples * skip) % cycles == 0''"

text \<open>The actions of the part of \<^verbatim>\<open>main\<close> that precedes the \<^verbatim>\<open>with\<close> statement.\<close>

fun prologue_event :: "event \<Rightarrow> bool" where
  "prologue_event GetData = True"
| "prologue_event GetModel = True"
| "prologue_event (Initialize s) = True"
| "prologue_event (LoadSamples p) = True"
| "prologue_event (LogWarning w) = True"
| "prologue_event (LoadStateDict d) = True"
| "prologue_event e = False"

text \<open>The \<^verbatim>\<open>with\<close> statement followed by the evaluation: all of \<^verbatim>\<open>main\<close> from line 162 on.\<close>

definition block_eval :: "config \<Rightarrow> env \<Rightarrow> unit run" where
  "block_eval c ev = bind_run (sampling_block c ev) (\<lambda>bs. evaluation ev bs)"

definition indivisible_config :: config where
  "indivisible_config = default_config\<lparr>inference := ''VerletSGLD'', cycles := 3\<rparr>"

definition unknown_init_config :: config where
  "unknown_init_config = default_config\<lparr>init_method := ''xavier''\<rparr>"

definition hmc_config :: config where
  "hmc_config = default_config\<lparr>inference := ''HMC'', batch_size := Some 64, skip := 7, cycles := 3\<rparr>"

definition resume_config :: config where
  "resume_config = default_config\<lparr>load_samples := Some ''ckpt'', init_method := ''xavier''\<rparr>"

definition failing_env :: env where
  "failing_env = example_env\<lparr>run_raises := True\<rparr>"

text \<open>The exception a dictionary iterator raises when the dictionary has changed size.\<close>

definition size_changed :: error where
  "size_changed = RuntimeError ''dictionary changed size during iteration''"

text \<open>
  Further inputs: HMC with the default (unset) batch size; checkpoints with a key the model
  does not have, followed by a key of equal and of different shape; a checkpoint whose
  only key matches the model. \<open>resolved_batch_size\<close> is the value of the local
  \<^verbatim>\<open>batch_size\<close> after lines 195 and 196.
\<close>

definition hmc_zero_cycles :: config where
  "hmc_zero_cycles = default_config\<lparr>inference := ''HMC'', batch_size := Some 64, cycles := 0\<rparr>"

definition zero_batch_config :: config where
  "zero_batch_config = default_config\<lparr>batch_size := Some 0\<rparr>"

definition hmc_default_config :: config where
  "hmc_default_config = default_config\<lparr>inference := ''HMC''\<rparr>"

definition extra_key_env :: env where
  "extra_key_env =
     example_env\<lparr>checkpoint := [(''extra'', Tensor [1] [7]), (''w'', Tensor [2] [5, 6])]\<rparr>"

definition mismatch_env :: env where
  "mismatch_env =
     example_env\<lparr>checkpoint := [(''extra'', Tensor [1] [7]), (''w'', Tensor [3] [1, 2, 3])]\<rparr>"

definition matching_checkpoint :: state_dict where
  "matching_checkpoint = [(''w'', Tensor [2] [5, 6])]"

definition resolved_batch_size :: "config \<Rightarrow> env \<Rightarrow> int" where
  "resolved_batch_size c ev = (case batch_size c of None \<Rightarrow> int (train_len ev) | Some b \<Rightarrow> b)"

section \<open>Schedule arithmetic\<close>

text \<open>
  C1. For requested_samples > 0, skip >= 1 and cycles > 0 with requested_samples * skip
  divisible by cycles, the schedule computation returns sample_epochs and
  epochs_per_cycle with sample_epochs * cycles = requested_samples * skip exactly and
  epochs_per_cycle = warmup + burnin + sample_epochs.
\<close>

theorem schedule_exact:
  assumes "0 < n_samples c" and "1 \<le> skip c" and "0 < cycles c"
    and "(n_samples c * skip c) mod cycles c = 0"
  shows "\<exists>se epc. schedule c = Inr (se, epc)
           \<and> se * cycles c = n_samples c * skip c
           \<and> epc = warmup c + burnin c + se"
  using assms by (auto simp: schedule_def Let_def)

theorem schedule_exact_witness:
  "schedule scenario_A = Inr (100, warmup scenario_A + burnin scenario_A + 100)
   \<and> (100::int) * cycles scenario_A = n_samples scenario_A * skip scenario_A"
  using schedule_exact [of scenario_A]
  by (simp add: scenario_A_def default_config_def schedule_def)

section \<open>Reasoning about runs\<close>

lemma bind_run_simps [simp]:
  "bind_run (Inl e, tr) f = (Inl e, tr)"
  "bind_run (Inr x, tr) f = (fst (f x), tr @ snd (f x))"
  by (simp_all add: bind_run_def split: prod.splits)

lemma seq_run_simps [simp]:
  "seq_run (Inl e, tr) k = (Inl e, tr)"
  "seq_run (Inr u, tr) k = (fst k, tr @ snd k)"
  by (simp_all add: seq_run_def)

lemma emit_seq [simp]: "seq_run (emit x) k = (fst k, x # snd k)"
  by (simp add: emit_def)

lemma iter_keys_events:
  "x \<in> set (snd (iter_keys u ks M sd)) \<Longrightarrow> prologue_event x"
  by (induction ks arbitrary: sd) (auto simp: ret_def raise_def split: if_splits option.splits)

lemma reconcile_events:
  assumes "x \<in> set (snd (reconcile M L))"
  shows "prologue_event x"
proof (cases "iter_keys (length L) (map fst L) M L")
  case (Pair r tr)
  have tr: "y \<in> set tr \<Longrightarrow> prologue_event y" for y
    using iter_keys_events [of y "length L" "map fst L" M L] Pair by simp
  from assms Pair show ?thesis
    by (cases r) (auto simp: reconcile_def ret_def dest: tr)
qed

lemma prepare_model_events:
  assumes "x \<in> set (snd (prepare_model c ev))"
  shows "prologue_event x"
proof (cases "reconcile (model_state ev) (checkpoint ev)")
  case (Pair r tr)
  have tr: "y \<in> set tr \<Longrightarrow> prologue_event y" for y
    using reconcile_events [of y "model_state ev" "checkpoint ev"] Pair by simp
  from assms Pair show ?thesis
    by (cases r)
       (auto simp: prepare_model_def ret_def raise_def emit_def
             split: option.splits if_splits dest: tr)
qed

lemma check_config_cases:
  "check_config c = (Inr (), []) \<or> (\<exists>s. check_config c = (Inl (AssertionError s), []))"
  by (simp add: check_config_def py_assert_def ret_def raise_def)

lemma check_config_ok:
  "check_config c = (Inr (), []) \<longleftrightarrow>
     inference c \<in> set inference_modes \<and> 0 < width c \<and> 0 < n_samples c \<and> 0 < cycles c
     \<and> 0 \<le> temperature c"
  by (simp add: check_config_def py_assert_def ret_def raise_def)

lemma prologue_events: "x \<in> set (snd (prologue c ev)) \<Longrightarrow> prologue_event x"
  using check_config_cases [of c]
  by (auto simp: prologue_def dest: prepare_model_events)

lemma prologue_ok:
  "fst (prologue c ev) = Inr () \<Longrightarrow> check_config c = (Inr (), [])"
  using check_config_cases [of c]
  by (auto simp: prologue_def)

lemma count_list_writes [simp]:
  "count_list (map SinkWrite ws) (SinkClosed s) = 0"
  "count_list (map SinkWrite ws) (SinkOpened s) = 0"
  by (induction ws) simp_all

lemma dropWhile_writes [simp]:
  "dropWhile (\<lambda>x. x \<noteq> RunRaised) (map SinkWrite ws @ ys) = dropWhile (\<lambda>x. x \<noteq> RunRaised) ys"
  by (induction ws) simp_all

lemma prologue_event_not:
  "prologue_event x \<Longrightarrow>
     \<not> is_kernel x \<and> \<not> sampling_work x \<and> \<not> sink_opened x \<and> x \<noteq> RunRaised
     \<and> x \<noteq> SinkClosed s \<and> x \<noteq> SinkOpened s \<and> x \<noteq> SinkWrite s"
  by (cases x) simp_all

lemma prologue_event_facts:
  assumes "\<forall>x\<in>set tr. prologue_event x"
  shows "count_list tr (SinkClosed s) = 0" and "count_list tr (SinkOpened s) = 0"
    and "dropWhile (\<lambda>x. x \<noteq> RunRaised) (tr @ ys) = dropWhile (\<lambda>x. x \<noteq> RunRaised) ys"
    and "filter is_kernel tr = []" and "filter sampling_work tr = []" and "filter sink_opened tr = []"
proof -
  have n: "x \<in> set tr \<Longrightarrow> \<not> is_kernel x \<and> \<not> sampling_work x \<and> \<not> sink_opened x \<and> x \<noteq> RunRaised
     \<and> x \<noteq> SinkClosed s \<and> x \<noteq> SinkOpened s" for x
    using assms prologue_event_not [of x s] by blast
  show "count_list tr (SinkClosed s) = 0" "count_list tr (SinkOpened s) = 0"
    using n by (auto simp: count_list_0_iff)
  show "dropWhile (\<lambda>x. x \<noteq> RunRaised) (tr @ ys) = dropWhile (\<lambda>x. x \<noteq> RunRaised) ys"
    using n by (intro dropWhile_append2) blast
  show "filter is_kernel tr = []" "filter sampling_work tr = []" "filter sink_opened tr = []"
    using n by (auto simp: filter_empty_conv)
qed

lemma main_split:
  "main c ev =
     (case prologue c ev of
        (Inl e, tr) \<Rightarrow> (Inl e, tr)
      | (Inr u, tr) \<Rightarrow> (fst (block_eval c ev), tr @ snd (block_eval c ev)))"
  by (simp add: main_def block_eval_def split: prod.splits sum.splits)

lemmas block_defs =
  block_eval_def sampling_block_def with_ctx_def model_saver_fn_def sampling_def
  hmc_branch_def sgmcmc_branch_def mcmc_run_def evaluation_def py_min_def data_loader_def
  ret_def raise_def emit_def Let_def

lemmas run_eval =
  main_def prologue_def check_config_def inference_modes_def py_assert_def prepare_model_def
  reconcile_def dict_update_def block_defs schedule_def select_runner_def
  divisibility_violation_def config_assertions_def default_config_def example_env_def

lemma block_eval_counts:
  "count_list (snd (block_eval c ev)) (SinkClosed Metrics) = 1"
  "count_list (snd (block_eval c ev)) (SinkOpened Metrics) = 1"
  "count_list (snd (block_eval c ev)) (SinkClosed Samples) = (if save_samples c then 1 else 0)"
  "count_list (snd (block_eval c ev)) (SinkOpened Samples) = (if save_samples c then 1 else 0)"
  by (cases "schedule c"; cases "select_runner (inference c)"; cases "batch_size c";
      simp add: block_defs split: prod.splits)+

lemma block_eval_no_write_after_failure:
  "SinkWrite s \<notin> set (dropWhile (\<lambda>x. x \<noteq> RunRaised) (snd (block_eval c ev)))"
  by (cases "schedule c"; cases "select_runner (inference c)"; cases "batch_size c";
      simp add: block_defs split: prod.splits)

text \<open>
  C5. The metrics sink and, when sample saving is enabled, the sample sink are each
  closed exactly once on every exit path from the sampling block, also when \<^verbatim>\<open>run()\<close>
  raises partway through; no record is written to either sink after the failure. The
  block is entered exactly when the part of \<^verbatim>\<open>main\<close> before it returns normally; a run
  that stops earlier opens and closes nothing.
\<close>

theorem sinks_closed_once:
  "count_list (snd (main c ev)) (SinkOpened Metrics) = (if fst (prologue c ev) = Inr () then 1 else 0)
   \<and> count_list (snd (main c ev)) (SinkClosed Metrics) = (if fst (prologue c ev) = Inr () then 1 else 0)
   \<and> count_list (snd (main c ev)) (SinkOpened Samples)
       = (if fst (prologue c ev) = Inr () \<and> save_samples c then 1 else 0)
   \<and> count_list (snd (main c ev)) (SinkClosed Samples)
       = (if fst (prologue c ev) = Inr () \<and> save_samples c then 1 else 0)
   \<and> (\<forall>s. SinkWrite s \<notin> set (dropWhile (\<lambda>x. x \<noteq> RunRaised) (snd (main c ev))))"
proof (cases "prologue c ev")
  case (Pair r tr)
  have ev: "\<forall>x\<in>set tr. prologue_event x"
    using prologue_events [of _ c ev] Pair by simp
  note facts = prologue_event_facts [OF ev]
  show ?thesis
  proof (cases r)
    case (Inl e)
    have d: "dropWhile (\<lambda>x. x \<noteq> RunRaised) tr = []"
      using facts(3) [of "[]"] by simp
    from Pair Inl show ?thesis
      by (simp add: main_split facts(1,2) d)
  next
    case (Inr u)
    with Pair show ?thesis
      by (simp add: main_split facts(1,2,3) block_eval_counts block_eval_no_write_after_failure)
  qed
qed

theorem sinks_closed_once_witness:
  "fst (main default_config failing_env) = Inl RunnerError
   \<and> count_list (snd (main default_config failing_env)) (SinkClosed Metrics) = 1
   \<and> count_list (snd (main default_config failing_env)) (SinkClosed Samples) = 1
   \<and> dropWhile (\<lambda>x. x \<noteq> RunRaised) (snd (main default_config failing_env))
        = [RunRaised, SinkClosed Samples, SinkClosed Metrics]
   \<and> SinkWrite Metrics \<in> set (snd (main default_config failing_env))"
  using sinks_closed_once [of default_config failing_env]
  by (simp add: run_eval failing_env_def)


lemma iter_keys_errors:
  "fst (iter_keys u ks M sd) = Inl e \<Longrightarrow> (\<exists>s. e = RuntimeError s) \<or> (\<exists>k. e = KeyError k)"
  by (induction ks arbitrary: sd) (auto simp: ret_def raise_def split: if_splits option.splits)

lemma reconcile_errors:
  assumes "fst (reconcile M L) = Inl e"
  shows "(\<exists>s. e = RuntimeError s) \<or> (\<exists>k. e = KeyError k)"
proof (cases "iter_keys (length L) (map fst L) M L")
  case (Pair r tr)
  with assms iter_keys_errors [of "length L" "map fst L" M L e] show ?thesis
    by (cases r) (auto simp: reconcile_def ret_def)
qed

lemma prepare_model_errors:
  assumes "fst (prepare_model c ev) = Inl e"
  shows "(\<exists>s. e = RuntimeError s) \<or> (\<exists>k. e = KeyError k)
         \<or> (load_samples c = None \<and> e = ValueError (''unknown init_method='' @ init_method c))"
proof (cases "reconcile (model_state ev) (checkpoint ev)")
  case (Pair r tr)
  with assms reconcile_errors [of "model_state ev" "checkpoint ev" e] show ?thesis
    by (cases r)
       (auto simp: prepare_model_def ret_def raise_def emit_def split: option.splits if_splits)
qed

lemma check_config_errors:
  "check_config c = (Inl e, tr) \<Longrightarrow>
     e \<in> AssertionError ` {''inference in [...]'', ''width > 0'', ''n_samples > 0'', ''cycles > 0'',
                          ''temperature >= 0''}"
  by (auto simp: check_config_def py_assert_def ret_def raise_def split: if_splits)

lemma prologue_errors:
  assumes "fst (prologue c ev) = Inl e"
  shows "e \<noteq> divisibility_violation"
    and "load_samples c \<noteq> None \<Longrightarrow> e \<noteq> ValueError s"
proof -
  consider (chk) tr where "check_config c = (Inl e, tr)"
    | (prep) "check_config c = (Inr (), [])" "fst (prepare_model c ev) = Inl e"
    using assms check_config_cases [of c] by (auto simp: prologue_def)
  then have "e \<noteq> divisibility_violation \<and> (load_samples c \<noteq> None \<longrightarrow> e \<noteq> ValueError s)"
  proof cases
    case chk
    from check_config_errors [OF this] show ?thesis
      by (auto simp: divisibility_violation_def)
  next
    case prep
    from prepare_model_errors [OF prep(2)] show ?thesis
      by (auto simp: divisibility_violation_def)
  qed
  then show "e \<noteq> divisibility_violation" and "load_samples c \<noteq> None \<Longrightarrow> e \<noteq> ValueError s"
    by simp_all
qed

lemma schedule_error:
  "schedule c = Inl e \<Longrightarrow> e = ZeroDivisionError \<or> e = divisibility_violation"
  by (auto simp: schedule_def divisibility_violation_def Let_def split: if_splits)

lemma schedule_violation:
  "cycles c \<noteq> 0 \<Longrightarrow> (n_samples c * skip c) mod cycles c \<noteq> 0 \<Longrightarrow> schedule c = Inl divisibility_violation"
  by (simp add: schedule_def divisibility_violation_def)

lemma block_eval_schedule_failure:
  "inference c \<noteq> ''HMC'' \<Longrightarrow> schedule c = Inl e \<Longrightarrow>
   block_eval c ev =
     (Inl e, SinkOpened Metrics # (if save_samples c then [SinkOpened Samples, SinkClosed Samples] else [])
               @ [SinkClosed Metrics])"
  by (simp add: block_defs)

lemma block_eval_config_error:
  assumes "fst (block_eval c ev) = Inl e" and "is_ConfigurationError e"
  shows "e = divisibility_violation \<and>
         snd (block_eval c ev) =
           SinkOpened Metrics # (if save_samples c then [SinkOpened Samples, SinkClosed Samples] else [])
             @ [SinkClosed Metrics]"
proof (cases "inference c = ''HMC''")
  case True
  with assms show ?thesis
    by (cases "batch_size c") (auto simp: block_defs split: if_splits)
next
  case False
  show ?thesis
  proof (cases "schedule c")
    case (Inl e')
    from block_eval_schedule_failure [OF False Inl, of ev] assms schedule_error [OF Inl]
    show ?thesis by auto
  next
    case (Inr p)
    with False assms show ?thesis
      by (cases "select_runner (inference c)"; cases p)
         (auto simp: block_defs split: if_splits)
  qed
qed

text \<open>
  C2. When \<^verbatim>\<open>(n_samples * skip) % cycles\<close> is not zero and the inference mode is not HMC,
  \<^verbatim>\<open>main\<close> fails and neither constructs a runner nor starts sampling. When execution
  reaches the schedule computation, the failure is the assertion of line 192, a
  configuration error, and the only actions after it are the closing of the sinks.
\<close>

theorem schedule_violation_stops:
  assumes "inference c \<noteq> ''HMC''" and "(n_samples c * skip c) mod cycles c \<noteq> 0"
  shows "\<exists>e. fst (main c ev) = Inl e
           \<and> filter sampling_work (snd (main c ev)) = []
           \<and> (fst (prologue c ev) = Inr () \<longrightarrow>
                e = divisibility_violation \<and> is_ConfigurationError e
                \<and> snd (main c ev) =
                    snd (prologue c ev) @ SinkOpened Metrics
                      # (if save_samples c then [SinkOpened Samples, SinkClosed Samples] else [])
                      @ [SinkClosed Metrics])"
proof (cases "prologue c ev")
  case (Pair r tr)
  have ev: "\<forall>x\<in>set tr. prologue_event x"
    using prologue_events [of _ c ev] Pair by simp
  note facts = prologue_event_facts [OF ev]
  show ?thesis
  proof (cases r)
    case (Inl e)
    with Pair show ?thesis
      by (simp add: main_split facts(5))
  next
    case (Inr u)
    with Pair have "check_config c = (Inr (), [])"
      using prologue_ok [of c ev] by simp
    then have "cycles c \<noteq> 0"
      by (simp add: check_config_ok)
    from schedule_violation [OF this assms(2)] assms(1)
    have "block_eval c ev =
      (Inl divisibility_violation,
       SinkOpened Metrics # (if save_samples c then [SinkOpened Samples, SinkClosed Samples] else [])
         @ [SinkClosed Metrics])"
      by (rule block_eval_schedule_failure [rotated])
    with Pair Inr show ?thesis
      by (simp add: main_split facts(5) divisibility_violation_def config_assertions_def)
  qed
qed

theorem schedule_violation_stops_witness:
  "fst (main scenario_B example_env) = Inl divisibility_violation
   \<and> is_ConfigurationError divisibility_violation
   \<and> filter sampling_work (snd (main scenario_B example_env)) = []
   \<and> snd (main scenario_B example_env) =
        [GetData, GetModel, Initialize ''he'', SinkOpened Metrics, SinkOpened Samples,
         SinkClosed Samples, SinkClosed Metrics]"
  using schedule_violation_stops [of scenario_B example_env]
  by (simp add: run_eval scenario_B_def)


text \<open>
  C6 as stated fails: with the default configuration, mode VerletSGLD and three cycles,
  the divisibility violation is raised after both sinks have been opened.
\<close>

theorem configuration_error_counterexample:
  "fst (main indivisible_config example_env) = Inl divisibility_violation
   \<and> is_ConfigurationError divisibility_violation
   \<and> filter sink_opened (snd (main indivisible_config example_env))
        = [SinkOpened Metrics, SinkOpened Samples]"
  by (simp add: run_eval indivisible_config_def)

text \<open>
  C6, as the code has it. Every configuration error is raised before a kernel or runner is
  constructed and before sampling starts. Every configuration error other than the
  schedule divisibility violation is raised before any sink is opened. The divisibility
  violation is raised inside the \<^verbatim>\<open>with\<close> statement: the sinks have been opened, and
  they are closed again before the error leaves \<^verbatim>\<open>main\<close>.
\<close>

theorem configuration_errors_precede_sampling:
  assumes "fst (main c ev) = Inl e" and "is_ConfigurationError e"
  shows "filter sampling_work (snd (main c ev)) = []
         \<and> (e \<noteq> divisibility_violation \<longrightarrow> filter sink_opened (snd (main c ev)) = [])
         \<and> (e = divisibility_violation \<longrightarrow>
              snd (main c ev) =
                snd (prologue c ev) @ SinkOpened Metrics
                  # (if save_samples c then [SinkOpened Samples, SinkClosed Samples] else [])
                  @ [SinkClosed Metrics])"
proof (cases "prologue c ev")
  case (Pair r tr)
  have ev: "\<forall>x\<in>set tr. prologue_event x"
    using prologue_events [of _ c ev] Pair by simp
  note facts = prologue_event_facts [OF ev]
  show ?thesis
  proof (cases r)
    case (Inl e')
    have "e' \<noteq> divisibility_violation"
      using prologue_errors [of c ev e'] Pair Inl by simp
    with Pair Inl assms show ?thesis
      by (simp add: main_split facts(5,6))
  next
    case (Inr u)
    with Pair assms have "fst (block_eval c ev) = Inl e"
      by (simp add: main_split)
    from block_eval_config_error [OF this assms(2)] Pair Inr show ?thesis
      by (simp add: main_split facts(5))
  qed
qed

theorem configuration_errors_precede_sampling_witness:
  "fst (main unknown_init_config example_env) = Inl (ValueError ''unknown init_method=xavier'')
   \<and> is_ConfigurationError (ValueError ''unknown init_method=xavier'')
   \<and> filter sampling_work (snd (main unknown_init_config example_env)) = []
   \<and> filter sink_opened (snd (main unknown_init_config example_env)) = []"
  using configuration_errors_precede_sampling
          [of unknown_init_config example_env "ValueError ''unknown init_method=xavier''"]
  by (simp add: run_eval unknown_init_config_def)


lemma iter_keys_warnings:
  "x \<in> set (snd (iter_keys u ks M sd)) \<Longrightarrow> \<exists>w. x = LogWarning w"
  by (induction ks arbitrary: sd) (auto simp: ret_def raise_def split: if_splits option.splits)

lemma reconcile_warnings:
  assumes "x \<in> set (snd (reconcile M L))"
  shows "\<exists>w. x = LogWarning w"
proof (cases "iter_keys (length L) (map fst L) M L")
  case (Pair r tr)
  have tr: "y \<in> set tr \<Longrightarrow> \<exists>w. y = LogWarning w" for y
    using iter_keys_warnings [of y "length L" "map fst L" M L] Pair by simp
  from assms Pair show ?thesis
    by (cases r) (auto simp: reconcile_def ret_def dest: tr)
qed

lemma resume_events:
  assumes "load_samples c = Some p" and "x \<in> set (snd (prologue c ev))"
  shows "x \<noteq> Initialize s"
proof (cases "reconcile (model_state ev) (checkpoint ev)")
  case (Pair r tr)
  have tr: "y \<in> set tr \<Longrightarrow> \<exists>w. y = LogWarning w" for y
    using reconcile_warnings [of y "model_state ev" "checkpoint ev"] Pair by simp
  from assms Pair check_config_cases [of c] show ?thesis
    by (cases r) (auto simp: prologue_def prepare_model_def emit_def dest: tr)
qed

lemma block_eval_events:
  "x \<in> set (snd (block_eval c ev)) \<Longrightarrow> \<not> prologue_event x"
  by (cases "schedule c"; cases "select_runner (inference c)"; cases "batch_size c")
     (auto simp: block_defs split: prod.splits if_splits)

lemma block_eval_errors:
  "fst (block_eval c ev) \<noteq> Inl (ValueError (''unknown init_method='' @ m))"
  using schedule_error [of c "ValueError (''unknown init_method='' @ m)"]
  by (cases "schedule c"; cases "select_runner (inference c)"; cases "batch_size c")
     (auto simp: block_defs divisibility_violation_def split: prod.splits if_splits)

lemma block_eval_hmc:
  "inference c = ''HMC'' \<Longrightarrow>
   block_eval c ev =
     (if run_raises ev
      then (Inl RunnerError,
            SinkOpened Metrics # (if save_samples c then [SinkOpened Samples] else [])
              @ [GetPotential, HMCKernel (1 / 1000) 32, MCMCConstructed (n_samples c) (warmup c),
                 RunStarted, RunRaised]
              @ (if save_samples c then [SinkClosed Samples] else []) @ [SinkClosed Metrics])
      else (fst (evaluation ev (batch_size c)),
            SinkOpened Metrics # (if save_samples c then [SinkOpened Samples] else [])
              @ [GetPotential, HMCKernel (1 / 1000) 32, MCMCConstructed (n_samples c) (warmup c),
                 RunStarted]
              @ (if save_samples c then [SinkClosed Samples] else []) @ [SinkClosed Metrics]
              @ snd (evaluation ev (batch_size c))))"
  by (simp add: block_eval_def sampling_block_def with_ctx_def model_saver_fn_def sampling_def
        hmc_branch_def mcmc_run_def ret_def raise_def emit_def)

lemma evaluation_events:
  "x \<in> set (snd (evaluation ev bs)) \<Longrightarrow> \<not> is_kernel x \<and> x \<noteq> RunnerConstructed cls args"
  by (cases bs)
     (auto simp: evaluation_def py_min_def data_loader_def ret_def raise_def emit_def
           split: if_splits)

lemma evaluation_errors:
  "fst (evaluation ev bs) \<noteq> Inl divisibility_violation"
  by (cases bs)
     (auto simp: evaluation_def py_min_def data_loader_def ret_def raise_def emit_def
                 divisibility_violation_def
           split: if_splits)

text \<open>
  C7 as stated fails: the check \<^verbatim>\<open>cycles > 0\<close> of line 120 is made in every mode, so
  an HMC configuration with \<^verbatim>\<open>cycles = 0\<close> stops at that assertion and constructs no
  kernel.
\<close>

theorem hmc_cycles_counterexample:
  "inference hmc_zero_cycles = ''HMC''
   \<and> main hmc_zero_cycles example_env = (Inl (AssertionError ''cycles > 0''), [])
   \<and> filter is_kernel (snd (main hmc_zero_cycles example_env)) = []"
  by (simp add: run_eval hmc_zero_cycles_def)

text \<open>
  C7, as the code has it. In inference mode HMC the divisibility check and the schedule
  are never evaluated: the divisibility assertion is never raised, no runner of the
  repository is constructed, and the whole run is the same for every value of
  \<^verbatim>\<open>skip\<close> and for all values of \<^verbatim>\<open>cycles\<close> that agree on \<^verbatim>\<open>cycles > 0\<close>, in
  particular for all positive ones. Exactly one library kernel is constructed, with step
  size 1e-3 and 32 steps, when the part of \<^verbatim>\<open>main\<close> before the sampling block returns
  normally, which requires \<^verbatim>\<open>cycles > 0\<close>; otherwise none is.
\<close>

theorem hmc_bypasses_schedule:
  assumes "inference c = ''HMC''"
  shows "filter is_kernel (snd (main c ev))
           = (if fst (prologue c ev) = Inr () then [HMCKernel (1 / 1000) 32] else [])
         \<and> (fst (prologue c ev) = Inr () \<longrightarrow> 0 < cycles c)
         \<and> (\<forall>cls args. RunnerConstructed cls args \<notin> set (snd (main c ev)))
         \<and> fst (main c ev) \<noteq> Inl divisibility_violation
         \<and> (\<forall>s cy. (0 < cy) = (0 < cycles c) \<longrightarrow>
                main (c\<lparr>skip := s, cycles := cy\<rparr>) ev = main c ev)"
proof (cases "prologue c ev")
  case (Pair r tr)
  have ev: "\<forall>x\<in>set tr. prologue_event x"
    using prologue_events [of _ c ev] Pair by simp
  note facts = prologue_event_facts [OF ev]
  have k: "filter is_kernel (snd (evaluation ev (batch_size c))) = []"
    using evaluation_events [of _ ev "batch_size c"] by (auto simp: filter_empty_conv)
  have 1: "filter is_kernel (snd (main c ev))
             = (if fst (prologue c ev) = Inr () then [HMCKernel (1 / 1000) 32] else [])"
    using Pair by (cases r) (simp_all add: main_split block_eval_hmc [OF assms] facts(4) k)
  have 2: "RunnerConstructed cls args \<notin> set (snd (main c ev))" for cls args
    using Pair ev evaluation_events [of "RunnerConstructed cls args" ev "batch_size c" cls args]
    by (cases r) (auto simp: main_split block_eval_hmc [OF assms])
  have 3: "fst (main c ev) \<noteq> Inl divisibility_violation"
    using Pair evaluation_errors [of ev "batch_size c"] prologue_errors(1) [of c ev]
    by (cases r) (auto simp: main_split block_eval_hmc [OF assms] divisibility_violation_def)
  have 4: "main (c\<lparr>skip := s, cycles := cy\<rparr>) ev = main c ev"
    if same: "(0 < cy) = (0 < cycles c)" for s cy
  proof -
    have a: "prologue (c\<lparr>skip := s, cycles := cy\<rparr>) ev = prologue c ev"
      by (simp add: prologue_def check_config_def prepare_model_def same
            cong: option.case_cong if_cong)
    have b: "block_eval (c\<lparr>skip := s, cycles := cy\<rparr>) ev = block_eval c ev"
      using assms by (simp add: block_eval_hmc cong: if_cong)
    show ?thesis unfolding main_split a b ..
  qed
  have 5: "0 < cycles c" if "fst (prologue c ev) = Inr ()"
    using prologue_ok [OF that] by (simp add: check_config_ok)
  from 1 2 3 4 5 show ?thesis by blast
qed

theorem hmc_bypasses_schedule_witness:
  "(n_samples hmc_config * skip hmc_config) mod cycles hmc_config \<noteq> 0
   \<and> fst (main hmc_config example_env) = Inr ()
   \<and> filter is_kernel (snd (main hmc_config example_env)) = [HMCKernel (1 / 1000) 32]
   \<and> main (hmc_config\<lparr>skip := 5, cycles := 5\<rparr>) example_env = main hmc_config example_env"
  using hmc_bypasses_schedule [of hmc_config example_env]
  by (simp add: run_eval hmc_config_def)

text \<open>
  C10. When a checkpoint path is given, the run does not depend on \<^verbatim>\<open>init_method\<close>:
  whatever its value, no initialisation scheme is applied and the error of line 143,
  \<^verbatim>\<open>ValueError("unknown init_method=...")\<close>, is not raised. Hence the unknown-scheme
  failure occurs only without a checkpoint path.
\<close>

theorem checkpoint_skips_initialization:
  assumes "load_samples c = Some p"
  shows "main (c\<lparr>init_method := m\<rparr>) ev = main c ev
         \<and> (\<forall>s. Initialize s \<notin> set (snd (main c ev)))
         \<and> (\<forall>i. fst (main c ev) \<noteq> Inl (ValueError (''unknown init_method='' @ i)))"
proof -
  have a: "prologue (c\<lparr>init_method := m\<rparr>) ev = prologue c ev"
    using assms by (simp add: prologue_def check_config_def prepare_model_def)
  have "sampling (c\<lparr>init_method := m\<rparr>) ev ms sv = sampling c ev ms sv" for ms sv
    by (simp add: sampling_def hmc_branch_def sgmcmc_branch_def schedule_def
          cong: if_cong option.case_cong)
  then have b: "block_eval (c\<lparr>init_method := m\<rparr>) ev = block_eval c ev"
    by (simp add: block_eval_def sampling_block_def model_saver_fn_def)
  have 1: "main (c\<lparr>init_method := m\<rparr>) ev = main c ev"
    unfolding main_split a b ..
  have 2: "Initialize s \<notin> set (snd (main c ev))" for s
    using resume_events [OF assms, of "Initialize s" ev s] block_eval_events [of "Initialize s" c ev]
    by (cases "prologue c ev"; cases "fst (prologue c ev)") (auto simp: main_split)
  have 3: "fst (main c ev) \<noteq> Inl (ValueError (''unknown init_method='' @ i))" for i
    using prologue_errors(2) [of c ev "ValueError (''unknown init_method='' @ i)"
        "''unknown init_method='' @ i"] assms block_eval_errors [of c ev i]
    by (cases "prologue c ev"; cases "fst (prologue c ev)") (auto simp: main_split)
  from 1 2 3 show ?thesis by blast
qed

theorem checkpoint_skips_initialization_witness:
  "fst (main resume_config example_env) = Inr ()
   \<and> Initialize ''xavier'' \<notin> set (snd (main resume_config example_env))
   \<and> main (resume_config\<lparr>init_method := ''he''\<rparr>) example_env = main resume_config example_env"
  using checkpoint_skips_initialization [of resume_config "''ckpt''" "''he''" example_env]
  by (simp add: run_eval resume_config_def)

section \<open>Checkpoint reconciliation\<close>

lemma iter_keys_same_shapes:
  assumes "\<forall>k\<in>set ks. \<exists>m l. map_of M k = Some m \<and> map_of sd k = Some l \<and> tensor_size m = tensor_size l"
  shows "iter_keys (length sd) ks M sd = (Inr sd, [])"
  using assms by (induction ks) (auto simp: ret_def)

lemma map_of_own_entry:
  "distinct (map fst S) \<Longrightarrow> k \<in> set (map fst S) \<Longrightarrow> \<exists>v. map_of S k = Some v"
  by (induction S) auto

lemma foldl_update_own:
  assumes "\<forall>(k, v)\<in>set xs. map_of d k = Some v"
  shows "foldl (\<lambda>acc (k, v). AList.update k v acc) d xs = d"
  using assms by (induction xs) (auto simp: AList.update_triv)

lemma dict_update_self:
  "distinct (map fst S) \<Longrightarrow> dict_update S S = S"
  unfolding dict_update_def by (rule foldl_update_own) auto

lemma reconcile_self:
  assumes "distinct (map fst S)"
  shows "reconcile S S = (Inr S, [LogWarning (MissingKeys {})])"
proof -
  have "\<forall>k\<in>set (map fst S). \<exists>m l. map_of S k = Some m \<and> map_of S k = Some l \<and> tensor_size m = tensor_size l"
    using map_of_own_entry [OF assms] by fastforce
  from iter_keys_same_shapes [OF this] dict_update_self [OF assms] show ?thesis
    by (simp add: reconcile_def ret_def emit_def)
qed

lemma distinct_foldl_update:
  "distinct (map fst d) \<Longrightarrow> distinct (map fst (foldl (\<lambda>acc (k, v). AList.update k v acc) d xs))"
  by (induction xs arbitrary: d) (auto simp: AList.distinct_update)

lemma reconcile_distinct:
  assumes "distinct (map fst M)" and "reconcile M L = (Inr S, tr)"
  shows "distinct (map fst S)"
proof (cases "iter_keys (length L) (map fst L) M L")
  case (Pair r t)
  with assms(2) obtain sd where "S = dict_update M sd"
    by (cases r) (auto simp: reconcile_def ret_def emit_def)
  with assms(1) show ?thesis
    by (simp add: dict_update_def distinct_foldl_update)
qed

text \<open>
  C9. Reconciliation is idempotent: a store obtained by merging a checkpoint into a model
  store (a dictionary, hence with distinct keys), reconciled against itself, is returned
  unchanged; no key is dropped and no value replaced, and the only warning lists no
  missing key.
\<close>

theorem reconcile_idempotent:
  assumes "distinct (map fst M)" and "reconcile M L = (Inr S, tr)"
  shows "reconcile S S = (Inr S, [LogWarning (MissingKeys {})])"
  using reconcile_self [OF reconcile_distinct [OF assms]] .

theorem reconcile_idempotent_witness:
  "reconcile (model_state example_env) matching_checkpoint
     = (Inr [(''w'', Tensor [2] [5, 6]), (''b'', Tensor [1] [0])], [LogWarning (MissingKeys {''b''})])
   \<and> reconcile [(''w'', Tensor [2] [5, 6]), (''b'', Tensor [1] [0])]
                [(''w'', Tensor [2] [5, 6]), (''b'', Tensor [1] [0])]
     = (Inr [(''w'', Tensor [2] [5, 6]), (''b'', Tensor [1] [0])], [LogWarning (MissingKeys {})])"
  using reconcile_idempotent [of "model_state example_env" matching_checkpoint
      "[(''w'', Tensor [2] [5, 6]), (''b'', Tensor [1] [0])]" "[LogWarning (MissingKeys {''b''})]"]
  by (simp add: run_eval matching_checkpoint_def)

text \<open>
  When the checkpoint has a key the model lacks, the loop deletes it from the dictionary
  it iterates over, and the next step of the iteration raises.
\<close>

lemma iter_keys_stale:
  "u \<noteq> length sd \<Longrightarrow> iter_keys u ks M sd = (Inl size_changed, [])"
  by (cases ks) (simp_all add: raise_def size_changed_def)

lemma length_delete_present:
  "k \<in> fst ` set sd \<Longrightarrow> length (AList.delete k sd) < length sd"
  unfolding AList.delete_eq by (auto intro: length_filter_less)

lemma length_update_present:
  "k \<in> fst ` set sd \<Longrightarrow> length (AList.update k v sd) = length sd"
  by (induction sd) auto

lemma keys_update_present:
  "k \<in> fst ` set sd \<Longrightarrow> map fst (AList.update k v sd) = map fst sd"
  by (simp add: AList.update_keys)

lemma iter_keys_unknown_key:
  assumes "set ks \<subseteq> fst ` set sd" and "\<exists>k\<in>set ks. map_of M k = None"
  shows "\<exists>tr. iter_keys (length sd) ks M sd = (Inl size_changed, tr)"
  using assms
proof (induction ks arbitrary: sd)
  case Nil
  then show ?case by simp
next
  case (Cons k ks)
  from Cons.prems(1) have k: "k \<in> fst ` set sd" by simp
  then obtain l where l: "map_of sd k = Some l"
    by (metis domD dom_map_of_conv_image_fst)
  show ?case
  proof (cases "map_of M k")
    case None
    have "length sd \<noteq> length (AList.delete k sd)"
      using length_delete_present [OF k] by simp
    from iter_keys_stale [OF this, of ks M] None show ?thesis
      by (simp add: emit_def)
  next
    case (Some m)
    with Cons.prems(2) have ex: "\<exists>k\<in>set ks. map_of M k = None" by auto
    show ?thesis
    proof (cases "tensor_size m = tensor_size l")
      case True
      from Cons.IH [of sd] Cons.prems(1) ex Some l True show ?thesis by simp
    next
      case False
      have "set ks \<subseteq> fst ` set (AList.update k m sd)"
        using Cons.prems(1) by (auto simp: AList.dom_update)
      from Cons.IH [OF this ex] obtain tr where
        "iter_keys (length sd) ks M (AList.update k m sd) = (Inl size_changed, tr)"
        by (auto simp: length_update_present [OF k])
      with Some l False show ?thesis
        by (simp add: emit_def)
    qed
  qed
qed

text \<open>
  C3 does not hold of the code. Whenever some key of the checkpoint is absent from the
  model, reconciliation raises \<^verbatim>\<open>RuntimeError\<close> instead of proceeding with the key dropped,
  and a run that resumes from such a checkpoint ends with that error before any store is
  installed into the model.
\<close>

theorem unknown_key_raises:
  assumes "k \<in> fst ` set (checkpoint ev)" and "k \<notin> fst ` set (model_state ev)"
  shows "(\<exists>tr. reconcile (model_state ev) (checkpoint ev) = (Inl size_changed, tr))
         \<and> (check_config c = (Inr (), []) \<and> load_samples c \<noteq> None \<longrightarrow>
              fst (main c ev) = Inl size_changed
              \<and> (\<forall>sd. LoadStateDict sd \<notin> set (snd (main c ev))))"
proof -
  have none: "map_of (model_state ev) k = None"
    using assms(2) by (simp add: map_of_eq_None_iff)
  with assms(1) have "\<exists>k\<in>set (map fst (checkpoint ev)). map_of (model_state ev) k = None"
    by auto
  from iter_keys_unknown_key [OF _ this, of "checkpoint ev"] obtain tr where
    tr: "iter_keys (length (checkpoint ev)) (map fst (checkpoint ev)) (model_state ev) (checkpoint ev)
           = (Inl size_changed, tr)" by auto
  then have r: "reconcile (model_state ev) (checkpoint ev) = (Inl size_changed, tr)"
    by (simp add: reconcile_def)
  have w: "x \<in> set tr \<Longrightarrow> \<exists>w. x = LogWarning w" for x
    using iter_keys_warnings [of x "length (checkpoint ev)" "map fst (checkpoint ev)"
        "model_state ev" "checkpoint ev"] tr by simp
  have "fst (main c ev) = Inl size_changed \<and> (\<forall>sd. LoadStateDict sd \<notin> set (snd (main c ev)))"
    if "check_config c = (Inr (), [])" and "load_samples c \<noteq> None"
  proof -
    from that(2) obtain p where p: "load_samples c = Some p" by auto
    have "prologue c ev = (Inl size_changed, [GetData, GetModel, LoadSamples p] @ tr)"
      using that(1) p r by (simp add: prologue_def prepare_model_def emit_def)
    then show ?thesis
      using w by (auto simp: main_split)
  qed
  with r show ?thesis by blast
qed

theorem unknown_key_raises_witness:
  "reconcile (model_state extra_key_env) (checkpoint extra_key_env)
     = (Inl size_changed, [LogWarning (KeyNotInModel ''extra'')])
   \<and> main resume_config extra_key_env =
       (Inl size_changed,
        [GetData, GetModel, LoadSamples ''ckpt'', LogWarning (KeyNotInModel ''extra'')])"
  using unknown_key_raises [of "''extra''" extra_key_env resume_config]
  by (simp add: run_eval resume_config_def extra_key_env_def size_changed_def)

text \<open>
  Without such a key the loop completes, and a key present in both stores with different
  shapes keeps the model's value and is reported.
\<close>

lemma map_of_present:
  "k \<in> fst ` set sd \<Longrightarrow> \<exists>l. map_of sd k = Some l"
  by (metis domD dom_map_of_conv_image_fst)

lemma iter_keys_known:
  assumes "distinct ks" and "set ks \<subseteq> fst ` set sd" and "\<forall>k\<in>set ks. map_of M k \<noteq> None"
  shows "\<exists>sd' tr. iter_keys (length sd) ks M sd = (Inr sd', tr) \<and> map fst sd' = map fst sd
     \<and> (\<forall>k. map_of sd' k =
            (if k \<in> set ks \<and> tensor_size (the (map_of M k)) \<noteq> tensor_size (the (map_of sd k))
             then map_of M k else map_of sd k))
     \<and> (\<forall>k\<in>set ks. tensor_size (the (map_of M k)) \<noteq> tensor_size (the (map_of sd k)) \<longrightarrow>
            LogWarning (SizeMismatch k (tensor_size (the (map_of M k))) (tensor_size (the (map_of sd k))))
              \<in> set tr)"
  using assms
proof (induction ks arbitrary: sd)
  case Nil
  then show ?case by (simp add: ret_def)
next
  case (Cons k ks)
  from Cons.prems have k: "k \<in> fst ` set sd" and nk: "k \<notin> set ks" and d: "distinct ks"
    and sub: "set ks \<subseteq> fst ` set sd" and known: "\<forall>k\<in>set ks. map_of M k \<noteq> None"
    by auto
  from map_of_present [OF k] obtain l where l: "map_of sd k = Some l" by blast
  from Cons.prems(3) obtain m where m: "map_of M k = Some m" by auto
  show ?case
  proof (cases "tensor_size m = tensor_size l")
    case True
    from Cons.IH [OF d sub known] obtain sd' tr where
      "iter_keys (length sd) ks M sd = (Inr sd', tr)" "map fst sd' = map fst sd"
      "\<forall>k. map_of sd' k =
            (if k \<in> set ks \<and> tensor_size (the (map_of M k)) \<noteq> tensor_size (the (map_of sd k))
             then map_of M k else map_of sd k)"
      "\<forall>k\<in>set ks. tensor_size (the (map_of M k)) \<noteq> tensor_size (the (map_of sd k)) \<longrightarrow>
            LogWarning (SizeMismatch k (tensor_size (the (map_of M k))) (tensor_size (the (map_of sd k))))
              \<in> set tr"
      by blast
    with True l m show ?thesis by auto
  next
    case False
    let ?sd = "AList.update k m sd"
    have sub': "set ks \<subseteq> fst ` set ?sd"
      using sub by (auto simp: AList.dom_update)
    have other: "k' \<noteq> k \<Longrightarrow> map_of ?sd k' = map_of sd k'" for k'
      by (simp add: AList.update_conv')
    have same: "map_of ?sd k = Some m"
      by (simp add: AList.update_conv')
    from Cons.IH [OF d sub' known] obtain sd' tr where
      r: "iter_keys (length ?sd) ks M ?sd = (Inr sd', tr)" and keys: "map fst sd' = map fst ?sd"
      and vals: "\<forall>k. map_of sd' k =
            (if k \<in> set ks \<and> tensor_size (the (map_of M k)) \<noteq> tensor_size (the (map_of ?sd k))
             then map_of M k else map_of ?sd k)"
      and warns: "\<forall>k\<in>set ks. tensor_size (the (map_of M k)) \<noteq> tensor_size (the (map_of ?sd k)) \<longrightarrow>
            LogWarning (SizeMismatch k (tensor_size (the (map_of M k))) (tensor_size (the (map_of ?sd k))))
              \<in> set tr"
      by blast
    have run: "iter_keys (length sd) (k # ks) M sd
                 = (Inr sd', LogWarning (SizeMismatch k (tensor_size m) (tensor_size l)) # tr)"
      using r l m False by (simp add: emit_def length_update_present [OF k])
    have keys': "map fst sd' = map fst sd"
      using keys by (simp add: keys_update_present [OF k])
    have vals': "map_of sd' k' =
            (if k' \<in> set (k # ks) \<and> tensor_size (the (map_of M k')) \<noteq> tensor_size (the (map_of sd k'))
             then map_of M k' else map_of sd k')" for k'
      using vals [rule_format, of k'] nk other [of k'] same l m False by (cases "k' = k") auto
    have warns': "\<forall>k'\<in>set (k # ks).
            tensor_size (the (map_of M k')) \<noteq> tensor_size (the (map_of sd k')) \<longrightarrow>
            LogWarning (SizeMismatch k' (tensor_size (the (map_of M k'))) (tensor_size (the (map_of sd k'))))
              \<in> set (LogWarning (SizeMismatch k (tensor_size m) (tensor_size l)) # tr)"
    proof (intro ballI impI)
      fix k'
      assume in_ks: "k' \<in> set (k # ks)"
        and diff: "tensor_size (the (map_of M k')) \<noteq> tensor_size (the (map_of sd k'))"
      show "LogWarning (SizeMismatch k' (tensor_size (the (map_of M k'))) (tensor_size (the (map_of sd k'))))
              \<in> set (LogWarning (SizeMismatch k (tensor_size m) (tensor_size l)) # tr)"
      proof (cases "k' = k")
        case True
        with l m show ?thesis by simp
      next
        case False
        with in_ks have "k' \<in> set ks" by simp
        with warns have
          "tensor_size (the (map_of M k')) \<noteq> tensor_size (the (map_of ?sd k')) \<longrightarrow>
           LogWarning (SizeMismatch k' (tensor_size (the (map_of M k')))
             (tensor_size (the (map_of ?sd k')))) \<in> set tr"
          by blast
        with diff show ?thesis
          by (simp add: other [OF False])
      qed
    qed
    from run keys' vals' warns' show ?thesis by blast
  qed
qed

lemma map_of_foldl_update:
  "distinct (map fst xs) \<Longrightarrow>
   map_of (foldl (\<lambda>acc (k, v). AList.update k v acc) d xs) = map_of d ++ map_of xs"
proof (induction xs rule: rev_induct)
  case Nil
  then show ?case by simp
next
  case (snoc x xs)
  obtain k v where x: "x = (k, v)" by (cases x)
  from snoc.prems x have fresh: "map_of xs k = None" and d: "distinct (map fst xs)"
    by (auto simp: map_of_eq_None_iff)
  have "map_of (foldl (\<lambda>acc (k, v). AList.update k v acc) d (xs @ [x]))
          = (map_of d ++ map_of xs)(k \<mapsto> v)"
    using snoc.IH [OF d] x by (simp add: AList.update_conv')
  also have "\<dots> = map_of d ++ (map_of xs)(k \<mapsto> v)"
    by simp
  also have "(map_of xs)(k \<mapsto> v) = map_of (xs @ [x])"
    using fresh x by (auto simp: fun_eq_iff map_add_def split: option.splits)
  finally show ?case .
qed

lemma reconcile_known_keys:
  assumes "distinct (map fst L)" and "fst ` set L \<subseteq> fst ` set M"
    and "map_of M k = Some m" and "map_of L k = Some l" and "tensor_size m \<noteq> tensor_size l"
  shows "\<exists>S tr. reconcile M L = (Inr S, tr) \<and> map_of S k = Some m
           \<and> LogWarning (SizeMismatch k (tensor_size m) (tensor_size l)) \<in> set tr"
proof -
  have known: "\<forall>k\<in>set (map fst L). map_of M k \<noteq> None"
    using assms(2) by (auto simp: map_of_eq_None_iff)
  have kL: "k \<in> set (map fst L)"
    using assms(4) by (metis map_of_eq_None_iff option.distinct(1) set_map)
  from iter_keys_known [OF assms(1) _ known, of L] obtain sd' tr where
    r: "iter_keys (length L) (map fst L) M L = (Inr sd', tr)" and keys: "map fst sd' = map fst L"
    and vals: "\<forall>k. map_of sd' k =
            (if k \<in> set (map fst L) \<and> tensor_size (the (map_of M k)) \<noteq> tensor_size (the (map_of L k))
             then map_of M k else map_of L k)"
    and warns: "\<forall>k\<in>set (map fst L). tensor_size (the (map_of M k)) \<noteq> tensor_size (the (map_of L k)) \<longrightarrow>
            LogWarning (SizeMismatch k (tensor_size (the (map_of M k))) (tensor_size (the (map_of L k))))
              \<in> set tr"
    by auto
  have "map_of sd' k = Some m"
    using vals [rule_format, of k] kL assms(3,4,5) by simp
  moreover have "distinct (map fst sd')"
    using keys assms(1) by simp
  ultimately have "map_of (dict_update M sd') k = Some m"
    by (simp add: dict_update_def map_of_foldl_update)
  moreover have "LogWarning (SizeMismatch k (tensor_size m) (tensor_size l)) \<in> set tr"
    using warns kL assms(3,4,5) by auto
  ultimately show ?thesis
    using r by (simp add: reconcile_def ret_def emit_def)
qed

text \<open>
  C4 does not hold of the code for every pair of stores. Here the checkpoint holds an
  unknown key before a key of mismatched shape: the run raises at the unknown key, the
  mismatched key is never visited, no warning about its shapes is logged and no
  reconciled store exists.
\<close>

theorem shape_mismatch_unreached:
  "map_of (model_state mismatch_env) ''w'' = Some (Tensor [2] [0, 0])
   \<and> map_of (checkpoint mismatch_env) ''w'' = Some (Tensor [3] [1, 2, 3])
   \<and> main resume_config mismatch_env =
       (Inl size_changed,
        [GetData, GetModel, LoadSamples ''ckpt'', LogWarning (KeyNotInModel ''extra'')])"
  by (simp add: run_eval resume_config_def mismatch_env_def size_changed_def)

section \<open>Batch sizes\<close>

lemma batch_size_resolution:
  assumes "inference c \<noteq> ''HMC''" and "fst (main c ev) = Inr ()"
  shows "DataLoader Train (resolved_batch_size c ev) True (if tensor_dataset ev then 0 else 2)
           \<in> set (snd (main c ev))
         \<and> EvaluateModel (min (resolved_batch_size c ev) (int (test_len ev))) \<in> set (snd (main c ev))"
proof (cases "prologue c ev")
  case (Pair r tr)
  with assms(2) have r: "r = Inr ()" and b: "fst (block_eval c ev) = Inr ()"
    by (cases r; simp add: main_split)+
  have "DataLoader Train (resolved_batch_size c ev) True (if tensor_dataset ev then 0 else 2)
           \<in> set (snd (block_eval c ev))
         \<and> EvaluateModel (min (resolved_batch_size c ev) (int (test_len ev)))
           \<in> set (snd (block_eval c ev))"
    using assms(1) b
    by (cases "schedule c"; cases "select_runner (inference c)"; cases "batch_size c")
       (auto simp: block_defs resolved_batch_size_def split: prod.splits if_splits)
  with Pair r show ?thesis
    by (simp add: main_split)
qed

lemma hmc_configured_batch_size:
  assumes "inference c = ''HMC''" and "batch_size c = Some b" and "fst (main c ev) = Inr ()"
  shows "EvaluateModel (min b (int (test_len ev))) \<in> set (snd (main c ev))"
proof (cases "prologue c ev")
  case (Pair r tr)
  with assms(3) have r: "r = Inr ()" and ok: "fst (block_eval c ev) = Inr ()"
    by (cases r; simp add: main_split)+
  have "EvaluateModel (min b (int (test_len ev))) \<in> set (snd (block_eval c ev))"
    using assms(1,2) ok by (auto simp: block_defs split: if_splits)
  with Pair r show ?thesis
    by (simp add: main_split)
qed

lemma hmc_unset_batch_size_fails:
  assumes "inference c = ''HMC''" and "batch_size c = None" and "fst (prologue c ev) = Inr ()"
  shows "\<exists>e. fst (main c ev) = Inl e"
proof (cases "prologue c ev")
  case (Pair r tr)
  with assms(3) have r: "r = Inr ()" by simp
  have "\<exists>e. fst (block_eval c ev) = Inl e"
    using assms(1,2) by (auto simp: block_defs)
  with Pair r show ?thesis
    by (simp add: main_split)
qed

text \<open>
  A batch size that is not positive is refused by the loader of line 199, inside the
  sampling block; that \<^verbatim>\<open>ValueError\<close> is not a configuration error.
\<close>

lemma nonpositive_batch_size_run:
  "main zero_batch_config example_env =
     (Inl (ValueError ''batch_size should be a positive integer value''),
      [GetData, GetModel, Initialize ''he'', SinkOpened Metrics, SinkOpened Samples,
       SinkClosed Samples, SinkClosed Metrics])
   \<and> \<not> is_ConfigurationError (ValueError ''batch_size should be a positive integer value'')"
  by (simp add: run_eval zero_batch_config_def)

text \<open>
  C8 does not hold of the code for every run. In mode HMC lines 195 and 196 are not
  executed, so an unset \<^verbatim>\<open>batch_size\<close> is still \<^verbatim>\<open>None\<close> at line 211, and
  \<^verbatim>\<open>min\<close> raises \<^verbatim>\<open>TypeError\<close> after sampling has completed.
\<close>

theorem hmc_unset_batch_size_type_error:
  "batch_size hmc_default_config = None
   \<and> main hmc_default_config example_env =
       (Inl (TypeError ''< not supported between instances of int and NoneType''),
        [GetData, GetModel, Initialize ''he'', SinkOpened Metrics, SinkOpened Samples,
         GetPotential, HMCKernel (1 / 1000) 32, MCMCConstructed 1000 2000, RunStarted,
         SinkClosed Samples, SinkClosed Metrics, GetSamples, ModelEval])"
  by (simp add: run_eval hmc_default_config_def)

end
